theory Spec2Isabelle
  imports Complex_Main "HOL-Library.Sublist"
begin

section \<open>The tiered DuckDuckGo search wrapper (custom\_ddg\_production.py)\<close>

text \<open>
  A shallow embedding of \<^verbatim>\<open>src/run_asa/Internal/custom_ddg_production.py\<close>.
  The module talks to four libraries (primp, Selenium, ddgs, requests) and to
  BeautifulSoup; what those calls answer is not part of the module, so every
  such answer is a field of the record \<open>world\<close>, and each function of the
  module is a function of the world. Exceptions are values (\<open>Inl\<close> of a sum),
  \<^verbatim>\<open>os.environ\<close> is a map that is passed in and returned, and every
  library call the module makes is written to an event list, in the order in
  which the module makes it.
\<close>

subsection \<open>Exceptions\<close>

text \<open>
  The exception classes the module names or can meet. \<open>TimeoutException\<close>
  is Selenium's subclass of \<open>WebDriverException\<close> (what
  \<^verbatim>\<open>WebDriverWait.until\<close> raises); \<open>KeyboardInterrupt\<close> stands for the
  classes that derive from \<^verbatim>\<open>BaseException\<close> but not from
  \<^verbatim>\<open>Exception\<close>.
\<close>

datatype exc_class =
    WebDriverException | TimeoutException | DDGSException | HTTPError
  | KeyError | ImportError | RuntimeError | KeyboardInterrupt

datatype exc = Exc (exc_class: exc_class) (message: string)

definition is_Exception :: "exc \<Rightarrow> bool" where
  "is_Exception e = (exc_class e \<noteq> KeyboardInterrupt)"

definition is_WebDriverException :: "exc \<Rightarrow> bool" where
  "is_WebDriverException e =
     (exc_class e = WebDriverException \<or> exc_class e = TimeoutException)"

definition is_DDGSException :: "exc \<Rightarrow> bool" where
  "is_DDGSException e = (exc_class e = DDGSException)"

text \<open>\<^verbatim>\<open>with contextlib.suppress(Exception): call()\<close>: an exception of the call
  that derives from \<^verbatim>\<open>Exception\<close> is dropped, any other one goes on.\<close>

definition suppress_Exception :: "exc option \<Rightarrow> exc option" where
  "suppress_Exception r =
     (case r of None \<Rightarrow> None
      | Some e \<Rightarrow> if is_Exception e then None else Some e)"

text \<open>\<^verbatim>\<open>try: body finally: fin\<close>: an exception of the \<^verbatim>\<open>finally\<close> block
  replaces whatever the body returned or raised.\<close>

definition py_finally :: "exc + 'a \<Rightarrow> exc option \<Rightarrow> exc + 'a" where
  "py_finally r fin = (case fin of Some e \<Rightarrow> Inl e | None \<Rightarrow> r)"

subsection \<open>Values, the environment, events\<close>

datatype pyval = PyInt int | PyStr string

type_synonym pydict = "string \<rightharpoonup> pyval"

type_synonym environ = "string \<rightharpoonup> string"

type_synonym headers = "(string \<times> string) list"

text \<open>Truth of a \<^verbatim>\<open>str | None\<close>: \<^verbatim>\<open>None\<close> and the empty string are false.\<close>

definition truthy :: "string option \<Rightarrow> bool" where
  "truthy p = (case p of None \<Rightarrow> False | Some s \<Rightarrow> s \<noteq> [])"

definition py_or :: "string option \<Rightarrow> string option \<Rightarrow> string option" where
  "py_or a b = (if truthy a then a else b)"

definition getenv :: "environ \<Rightarrow> string \<Rightarrow> string option" where
  "getenv env var = env var"

text \<open>\<^verbatim>\<open>os.environ.setdefault(var, value)\<close>.\<close>

definition setdefault :: "string \<Rightarrow> string \<Rightarrow> environ \<Rightarrow> environ" where
  "setdefault var v env = (case env var of None \<Rightarrow> env(var \<mapsto> v) | Some _ \<Rightarrow> env)"

text \<open>\<^verbatim>\<open>xs[:k]\<close> for an integer \<open>k\<close>: a negative \<open>k\<close> counts from the end.\<close>

definition py_slice_to :: "int \<Rightarrow> 'a list \<Rightarrow> 'a list" where
  "py_slice_to k xs =
     (if 0 \<le> k then take (nat k) xs else take (length xs - nat (- k)) xs)"

text \<open>\<^verbatim>\<open>str(i)\<close> of an integer, as the f-strings of the module print it.\<close>

fun str_nat :: "nat \<Rightarrow> string" where
  "str_nat n =
     (if n < 10 then [''0123456789'' ! n]
      else str_nat (n div 10) @ [''0123456789'' ! (n mod 10)])"

declare str_nat.simps [simp del]

definition str_int :: "int \<Rightarrow> string" where
  "str_int i = (if i < 0 then CHR ''-'' # str_nat (nat (- i)) else str_nat (nat i))"

datatype tier = Primp | Browser | Ddgs | Scrape

text \<open>The library calls of the module. An event is the call, tagged with the
  tier whose code makes it.\<close>

datatype call =
    PrimpImport
  | PrimpClient string string "string option"
  | PrimpHeadersUpdate headers
  | PrimpGet "(string \<times> string) list"
  | PrimpClose
  | ChromeStart "string list"
  | CdpSetHeaders headers
  | DriverGet string
  | DriverWait
  | DriverQuit
  | DdgsCall "string option" nat
  | Sleep rat
  | RequestsPost string string headers "string option"

type_synonym event = "tier \<times> call"

subsection \<open>Tier: ddgs HTTP API (\<^verbatim>\<open>_with_ddgs\<close>)\<close>

text \<open>
  \<^verbatim>\<open>_with_ddgs\<close> builds a headers dictionary, but opens the client without it
  (the line that passed it is a comment), so the headers reach no call.
  \<open>with_ddgs_loop\<close> is the \<^verbatim>\<open>for attempt in range(1, retries + 1)\<close> loop, over
  the attempts that remain. \<open>fn attempt\<close> is what opening the client and running the callback
  does at that attempt. Falling off the end of the loop is Python's implicit
  \<^verbatim>\<open>return None\<close>, the value \<open>Inr None\<close>. The delays are Python floats in
  the source; here they are exact rationals.
\<close>

fun with_ddgs_loop ::
  "string option \<Rightarrow> (nat \<Rightarrow> exc + 'a) \<Rightarrow> nat \<Rightarrow> rat \<Rightarrow> nat list \<Rightarrow> rat
     \<Rightarrow> event list \<times> (exc + 'a option)" where
  "with_ddgs_loop proxy fn retries backoff [] sleep = ([], Inr None)"
| "with_ddgs_loop proxy fn retries backoff (attempt # rest) sleep =
     (case fn attempt of
        Inr v \<Rightarrow> ([(Ddgs, DdgsCall proxy attempt)], Inr (Some v))
      | Inl e \<Rightarrow>
          if is_DDGSException e then
            (if attempt = retries then ([(Ddgs, DdgsCall proxy attempt)], Inl e)
             else
               (let (evs, r) =
                      with_ddgs_loop proxy fn retries backoff rest (sleep * backoff)
                in ((Ddgs, DdgsCall proxy attempt) # (Ddgs, Sleep sleep) # evs, r)))
          else ([(Ddgs, DdgsCall proxy attempt)], Inl e))"

definition with_ddgs ::
  "string option \<Rightarrow> headers option \<Rightarrow> (nat \<Rightarrow> exc + 'a) \<Rightarrow> nat \<Rightarrow> rat \<Rightarrow> environ
     \<Rightarrow> event list \<times> environ \<times> (exc + 'a option)" where
  "with_ddgs proxy headers fn retries backoff env =
     (let proxy' = py_or (py_or proxy (getenv env ''HTTP_PROXY''))
                     (getenv env ''HTTPS_PROXY'');
          env' = (case proxy' of
                    None \<Rightarrow> env
                  | Some p \<Rightarrow>
                      if p \<noteq> [] then
                        setdefault ''HTTPS_PROXY'' p (setdefault ''HTTP_PROXY'' p env)
                      else env);
          (evs, r) = with_ddgs_loop proxy' fn retries backoff [1 ..< retries + 1] (1 / 100)
      in (evs, env', r))"

subsection \<open>The configuration and the outside world\<close>

text \<open>The fields of \<^verbatim>\<open>PatchedDuckDuckGoSearchAPIWrapper\<close> (\<^verbatim>\<open>self\<close>).\<close>

record config =
  self_k :: int
  self_max_results :: int
  self_region :: "string option"
  self_safesearch :: "string option"
  self_time :: "string option"
  self_proxy :: "string option"
  self_headers :: "headers option"
  self_use_browser :: bool
  self_headless :: bool
  self_bypass_proxy_for_driver :: bool

text \<open>An element that \<^verbatim>\<open>soup.select\<close> returns: its \<^verbatim>\<open>get_text(strip=True)\<close>
  and its \<^verbatim>\<open>href\<close> attribute, which may be missing.\<close>

record tag =
  tag_text :: string
  tag_href :: "string option"

record response =
  status_code :: int
  resp_text :: string

text \<open>
  What the libraries answer. \<open>soup_select selector html\<close> is
  \<^verbatim>\<open>BeautifulSoup(html, "html.parser").select(selector)\<close>; \<open>real_url raw\<close> is
  \<^verbatim>\<open>unquote(parse_qs(urlparse(raw).query).get("uddg", [raw])[0])\<close>;
  \<open>ddgs_text attempt max_results\<close> is what opening the ddgs client and
  \<^verbatim>\<open>list(d.text(query, max_results=max_results, ...))\<close> do at that attempt;
  \<open>chrome_environ\<close> is what starting the driver does to \<^verbatim>\<open>os.environ\<close>
  (the one library call the module brackets with a save and a restore; the
  other calls are taken to leave the environment alone); \<open>jitter\<close> is
  \<^verbatim>\<open>random.uniform(0, 0.01)\<close>. An \<open>exc option\<close> is \<open>None\<close> when the call
  returns.
\<close>

record world =
  soup_select :: "string \<Rightarrow> string \<Rightarrow> tag list"
  real_url :: "string \<Rightarrow> string"
  url_quote :: "string \<Rightarrow> string"
  urlencode_q :: "string \<Rightarrow> string"
  str_lower :: "string \<Rightarrow> string"
  primp_import :: "exc option"
  primp_Client :: "exc option"
  primp_headers_update :: "exc option"
  primp_get :: "exc + response"
  primp_close :: "exc option"
  chrome_environ :: "environ \<Rightarrow> environ"
  webdriver_Chrome :: "exc option"
  execute_cdp_cmd :: "exc option"
  driver_get :: "exc option"
  driver_wait :: "exc option"
  page_source :: string
  jitter :: rat
  driver_quit :: "exc option"
  ddgs_text :: "nat \<Rightarrow> int \<Rightarrow> exc + pydict list"
  requests_post :: "exc + response"
  raise_for_status :: "response \<Rightarrow> exc option"

definition INTERNAL_MAX_RETURN :: int where
  "INTERNAL_MAX_RETURN = 10"

definition DEFAULT_UA :: string where
  "DEFAULT_UA = ''Mozilla/5.0 (Windows NT 10.0; Win64; x64) AppleWebKit/537.36 (KHTML, like Gecko) Chrome/125.0 Safari/537.36''"

text \<open>Truth of an \<^verbatim>\<open>Optional[Dict[str, str]]\<close>: \<^verbatim>\<open>None\<close> and \<^verbatim>\<open>{}\<close> are false.\<close>

definition truthy_headers :: "headers option \<Rightarrow> bool" where
  "truthy_headers h = (case h of None \<Rightarrow> False | Some hs \<Rightarrow> hs \<noteq> [])"

text \<open>\<^verbatim>\<open>headers = dict(headers or {}); headers.setdefault("User-Agent", _DEFAULT_UA)\<close>.\<close>

definition with_user_agent :: "headers option \<Rightarrow> headers" where
  "with_user_agent h =
     (let hs = (case h of None \<Rightarrow> [] | Some hs \<Rightarrow> hs)
      in if ''User-Agent'' \<in> fst ` set hs then hs else hs @ [(''User-Agent'', DEFAULT_UA)])"

text \<open>The dictionary literal every scraping tier appends.\<close>

definition result_entry :: "nat \<Rightarrow> string \<Rightarrow> string \<Rightarrow> string \<Rightarrow> pydict" where
  "result_entry i title href body =
     [''id'' \<mapsto> PyInt (int i), ''title'' \<mapsto> PyStr title,
      ''href'' \<mapsto> PyStr href, ''body'' \<mapsto> PyStr body]"

text \<open>A loop that builds a list and stops at the first exception.\<close>

fun collect :: "(exc + 'a) list \<Rightarrow> exc + 'a list" where
  "collect [] = Inr []"
| "collect (x # xs) =
     (case x of Inl e \<Rightarrow> Inl e
      | Inr v \<Rightarrow> (case collect xs of Inl e \<Rightarrow> Inl e | Inr vs \<Rightarrow> Inr (v # vs)))"

subsection \<open>Tier 0: primp (inside \<^verbatim>\<open>_search_text\<close>)\<close>

definition primp_params :: "config \<Rightarrow> world \<Rightarrow> string \<Rightarrow> (string \<times> string) list" where
  "primp_params cfg w query =
     [(''q'', query)]
     @ (if truthy (self_safesearch cfg) then
          (let ss = str_lower w (case self_safesearch cfg of Some s \<Rightarrow> s | None \<Rightarrow> [])
           in [(''kp'',
                if ss = ''off'' then ''-1''
                else if ss = ''moderate'' then ''0''
                else if ss = ''safe'' then ''1''
                else if ss = ''strict'' then ''1''
                else ''0'')])
        else [])
     @ (case self_time cfg of
          Some t \<Rightarrow> if t \<noteq> [] then [(''df'', t)] else []
        | None \<Rightarrow> [])
     @ (case self_region cfg of
          Some r \<Rightarrow> if r \<noteq> [] then [(''kl'', r)] else []
        | None \<Rightarrow> [])"

text \<open>\<^verbatim>\<open>_limit = int(max_results or INTERNAL_MAX_RETURN)\<close>: the integer 0 is false.\<close>

definition primp_limit :: "int \<Rightarrow> int" where
  "primp_limit max_results = (if max_results \<noteq> 0 then max_results else INTERNAL_MAX_RETURN)"

text \<open>One round of \<^verbatim>\<open>for i, a in enumerate(_links[:_limit], 1)\<close>. \<open>i\<close> starts
  at 1, so \<open>i - 1\<close> is the index the source reads.\<close>

definition primp_entry :: "world \<Rightarrow> tag list \<Rightarrow> nat \<times> tag \<Rightarrow> pydict" where
  "primp_entry w snips ia =
     (let i = fst ia; a = snd ia;
          raw = (case tag_href a of Some h \<Rightarrow> h | None \<Rightarrow> []);
          real = real_url w raw;
          snip = (if i - 1 < length snips then tag_text (snips ! (i - 1)) else [])
      in result_entry i (tag_text a) raw
           (''__START_OF_SOURCE '' @ str_nat i @ ''__ <CONTENT> '' @ snip
            @ '' </CONTENT> <URL> '' @ real @ '' </URL> __END_OF_SOURCE ''
            @ str_nat i @ ''__''))"

text \<open>The inner \<^verbatim>\<open>try\<close> block, once the client exists: \<open>Inr (Some out)\<close> is
  \<^verbatim>\<open>return _out\<close>, \<open>Inr None\<close> is leaving the block without returning.\<close>

definition primp_request ::
  "config \<Rightarrow> world \<Rightarrow> string \<Rightarrow> int \<Rightarrow> event list \<times> (exc + pydict list option)" where
  "primp_request cfg w query max_results =
     (let upd = (if truthy_headers (self_headers cfg) then
                   ([(Primp, PrimpHeadersUpdate
                        (case self_headers cfg of Some hs \<Rightarrow> hs | None \<Rightarrow> []))],
                    suppress_Exception (primp_headers_update w))
                 else ([], None));
          get = (Primp, PrimpGet (primp_params cfg w query))
      in case snd upd of
           Some e \<Rightarrow> (fst upd, Inl e)
         | None \<Rightarrow>
             (case primp_get w of
                Inl e \<Rightarrow> (fst upd @ [get], Inl e)
              | Inr resp \<Rightarrow>
                  (fst upd @ [get],
                   if 200 \<le> status_code resp \<and> status_code resp < 300 \<and> resp_text resp \<noteq> []
                   then
                     (let links = soup_select w ''a.result__a'' (resp_text resp);
                          snips = soup_select w ''div.result__snippet, a.result__snippet''
                                    (resp_text resp);
                          limit = primp_limit max_results;
                          out = map (primp_entry w snips)
                                  (enumerate 1 (py_slice_to limit links))
                      in if out \<noteq> [] then Inr (Some out) else Inr None)
                   else Inr None)))"

text \<open>The body of the outer \<^verbatim>\<open>try\<close>: the import, the client, the request, and
  the \<^verbatim>\<open>finally\<close> that closes the client.\<close>

definition primp_attempt ::
  "config \<Rightarrow> world \<Rightarrow> string \<Rightarrow> int \<Rightarrow> environ
     \<Rightarrow> event list \<times> (exc + pydict list option)" where
  "primp_attempt cfg w query max_results env =
     (case primp_import w of
        Some e \<Rightarrow> ([(Primp, PrimpImport)], Inl e)
      | None \<Rightarrow>
          (let imp = (case getenv env ''PRIMP_IMPERSONATE'' of
                        Some v \<Rightarrow> v | None \<Rightarrow> ''chrome_131'');
               imp_os = (case getenv env ''PRIMP_IMPERSONATE_OS'' of
                           Some v \<Rightarrow> v | None \<Rightarrow> ''windows'');
               start = [(Primp, PrimpImport),
                        (Primp, PrimpClient imp imp_os (self_proxy cfg))]
           in case primp_Client w of
                Some e \<Rightarrow> (start, Inl e)
              | None \<Rightarrow>
                  (let req = primp_request cfg w query max_results
                   in (start @ fst req @ [(Primp, PrimpClose)],
                       py_finally (snd req) (suppress_Exception (primp_close w))))))"

text \<open>The outer \<^verbatim>\<open>try\<close> with its \<^verbatim>\<open>except Exception as _primp_exc\<close>, which logs
  and goes on to the next tier.\<close>

definition primp_tier ::
  "config \<Rightarrow> world \<Rightarrow> string \<Rightarrow> int \<Rightarrow> environ
     \<Rightarrow> event list \<times> (exc + pydict list option)" where
  "primp_tier cfg w query max_results env =
     (let att = primp_attempt cfg w query max_results env
      in (fst att,
          case snd att of
            Inl e \<Rightarrow> if is_Exception e then Inr None else Inl e
          | Inr out \<Rightarrow> Inr out))"

subsection \<open>Tier 1: the real browser (\<^verbatim>\<open>_new_driver\<close>, \<^verbatim>\<open>_browser_search\<close>)\<close>

text \<open>The loop \<^verbatim>\<open>for var in ("HTTP_PROXY", "HTTPS_PROXY"): if var in os.environ:
  saved_env[var] = os.environ.pop(var)\<close>; it returns the environment and
  \<^verbatim>\<open>saved_env\<close>.\<close>

fun pop_vars :: "string list \<Rightarrow> environ \<Rightarrow> environ \<Rightarrow> environ \<times> environ" where
  "pop_vars [] env saved = (env, saved)"
| "pop_vars (var # vars) env saved =
     (case env var of
        Some v \<Rightarrow> pop_vars vars (env(var := None)) (saved(var \<mapsto> v))
      | None \<Rightarrow> pop_vars vars env saved)"

text \<open>The arguments \<^verbatim>\<open>_new_driver\<close> gives the browser. The source adds
  \<^verbatim>\<open>--headless\<close> without reading its \<^verbatim>\<open>headless\<close> parameter.\<close>

definition driver_options :: "string option \<Rightarrow> bool \<Rightarrow> string list" where
  "driver_options proxy headless =
     [''--headless'', ''--disable-gpu'', ''--disable-dev-shm-usage'', ''--no-sandbox'']
     @ (case proxy of
          Some p \<Rightarrow> if p \<noteq> [] then [''--proxy-server='' @ p] else []
        | None \<Rightarrow> [])"

text \<open>\<^verbatim>\<open>_new_driver\<close>: \<open>None\<close> in the result is the driver returned, \<open>Some e\<close>
  the exception raised.\<close>

definition new_driver ::
  "world \<Rightarrow> string option \<Rightarrow> headers option \<Rightarrow> bool \<Rightarrow> bool \<Rightarrow> environ
     \<Rightarrow> event list \<times> environ \<times> exc option" where
  "new_driver w proxy headers headless bypass_proxy_for_driver env =
     (let opts = driver_options proxy headless;
          popped = (if bypass_proxy_for_driver
                    then pop_vars [''HTTP_PROXY'', ''HTTPS_PROXY''] env Map.empty
                    else (env, Map.empty));
          saved_env = snd popped;
          env' = chrome_environ w (fst popped) ++ saved_env;
          start = [(Browser, ChromeStart opts)]
      in case webdriver_Chrome w of
           Some e \<Rightarrow> (start, env', Some e)
         | None \<Rightarrow>
             if truthy_headers headers then
               (start @ [(Browser, CdpSetHeaders
                            (case headers of Some hs \<Rightarrow> hs | None \<Rightarrow> []))],
                env', suppress_Exception (execute_cdp_cmd w))
             else (start, env', None))"

text \<open>One round of \<^verbatim>\<open>for idx, link in enumerate(result_links)\<close>;
  \<^verbatim>\<open>link["href"]\<close> raises \<^verbatim>\<open>KeyError\<close> when the attribute is missing.\<close>

definition browser_entry :: "world \<Rightarrow> tag list \<Rightarrow> nat \<times> tag \<Rightarrow> exc + pydict" where
  "browser_entry w result_snippets il =
     (let idx = fst il; link = snd il
      in case tag_href link of
           None \<Rightarrow> Inl (Exc KeyError ''href'')
         | Some raw_href \<Rightarrow>
             (let real = real_url w raw_href;
                  snippet = (if idx < length result_snippets
                             then tag_text (result_snippets ! idx) else [])
              in Inr (result_entry (idx + 1) (tag_text link) raw_href
                        (''__START_OF_SOURCE '' @ str_nat (idx + 1) @ ''__ <CONTENT> ''
                         @ snippet @ '' </CONTENT> <URL> '' @ real
                         @ '' </URL> __END_OF_SOURCE  '' @ str_nat (idx + 1) @ ''__''))))"

text \<open>The \<^verbatim>\<open>try\<close> block of \<^verbatim>\<open>_browser_search\<close>. \<open>max_results\<close> is already the
  value the function overwrote it with.\<close>

definition browser_page ::
  "world \<Rightarrow> string \<Rightarrow> int \<Rightarrow> event list \<times> (exc + pydict list)" where
  "browser_page w query max_results =
     (let get = (Browser, DriverGet (''https://duckduckgo.com/html/?q='' @ url_quote w query))
      in case driver_get w of
           Some e \<Rightarrow> ([get], Inl e)
         | None \<Rightarrow>
             (case driver_wait w of
                Some e \<Rightarrow> ([get, (Browser, DriverWait)], Inl e)
              | None \<Rightarrow>
                  (let result_links =
                         py_slice_to max_results (soup_select w ''a.result__a'' (page_source w));
                       result_snippets =
                         py_slice_to max_results
                           (soup_select w ''a.result__snippet'' (page_source w))
                   in ([get, (Browser, DriverWait)],
                       collect (map (browser_entry w result_snippets)
                                  (enumerate 0 result_links))))))"

definition browser_search ::
  "world \<Rightarrow> string \<Rightarrow> int \<Rightarrow> string option \<Rightarrow> headers option \<Rightarrow> bool \<Rightarrow> bool \<Rightarrow> environ
     \<Rightarrow> event list \<times> environ \<times> (exc + pydict list)" where
  "browser_search w query max_results proxy headers headless bypass_proxy_for_driver env =
     (let max_results' = INTERNAL_MAX_RETURN;
          drv = new_driver w proxy headers headless bypass_proxy_for_driver env
      in case snd (snd drv) of
           Some e \<Rightarrow> (fst drv, fst (snd drv), Inl e)
         | None \<Rightarrow>
             (let page = browser_page w query max_results'
              in (fst drv @ fst page @ [(Browser, Sleep (jitter w)), (Browser, DriverQuit)],
                  fst (snd drv),
                  py_finally (snd page) (suppress_Exception (driver_quit w)))))"

subsection \<open>Tier 3: plain requests (\<^verbatim>\<open>_requests_scrape\<close>)\<close>

definition scrape_entry :: "nat \<times> tag \<Rightarrow> exc + pydict" where
  "scrape_entry ia =
     (case tag_href (snd ia) of
        None \<Rightarrow> Inl (Exc KeyError ''href'')
      | Some h \<Rightarrow> Inr (result_entry (fst ia) (tag_text (snd ia)) h []))"

definition requests_scrape ::
  "world \<Rightarrow> string \<Rightarrow> int \<Rightarrow> string option \<Rightarrow> headers option
     \<Rightarrow> event list \<times> (exc + pydict list)" where
  "requests_scrape w query max_results proxy headers =
     (let url = ''https://html.duckduckgo.com/html'';
          headers' = with_user_agent headers;
          proxies = (if truthy proxy then proxy else None);
          post = [(Scrape, RequestsPost url (urlencode_q w query) headers' proxies)]
      in case requests_post w of
           Inl e \<Rightarrow> (post, Inl e)
         | Inr resp \<Rightarrow>
             (case raise_for_status w resp of
                Some e \<Rightarrow> (post, Inl e)
              | None \<Rightarrow>
                  (post,
                   collect (map scrape_entry
                              (enumerate 1
                                 (py_slice_to max_results
                                    (soup_select w ''a.result__a'' (resp_text resp))))))))"

subsection \<open>The dispatcher (\<^verbatim>\<open>_search_text\<close>)\<close>

text \<open>
  \<^verbatim>\<open>_search_text\<close>, read from its end: \<open>search_text_tier3\<close> is the last
  statement, \<open>search_text_tier2\<close> the ddgs block and what follows it,
  \<open>search_text_tier1\<close> the Selenium block and what follows it, and
  \<open>search_text\<close> the whole method. The result \<open>Inr (Some rs)\<close> is the list
  returned, \<open>Inr None\<close> Python's \<^verbatim>\<open>None\<close>, \<open>Inl e\<close> the exception that leaves
  the method.
\<close>

definition search_text_tier3 ::
  "config \<Rightarrow> world \<Rightarrow> string \<Rightarrow> int \<Rightarrow> environ
     \<Rightarrow> event list \<times> environ \<times> (exc + pydict list option)" where
  "search_text_tier3 cfg w query max_results env =
     (let r = requests_scrape w query max_results (self_proxy cfg) (self_headers cfg)
      in (fst r, env, case snd r of Inl e \<Rightarrow> Inl e | Inr rs \<Rightarrow> Inr (Some rs)))"

definition search_text_tier2 ::
  "config \<Rightarrow> world \<Rightarrow> string \<Rightarrow> int \<Rightarrow> environ
     \<Rightarrow> event list \<times> environ \<times> (exc + pydict list option)" where
  "search_text_tier2 cfg w query max_results env =
     (let d = with_ddgs (self_proxy cfg) (self_headers cfg)
                (\<lambda>attempt. ddgs_text w attempt max_results) 3 (3 / 2) env
      in case snd (snd d) of
           Inr v \<Rightarrow> d
         | Inl e \<Rightarrow>
             if is_DDGSException e then
               (let s = search_text_tier3 cfg w query max_results (fst (snd d))
                in (fst d @ fst s, snd s))
             else d)"

definition search_text_tier1 ::
  "config \<Rightarrow> world \<Rightarrow> string \<Rightarrow> int \<Rightarrow> environ
     \<Rightarrow> event list \<times> environ \<times> (exc + pydict list option)" where
  "search_text_tier1 cfg w query max_results env =
     (if self_use_browser cfg then
        (let b = browser_search w query max_results (self_proxy cfg) (self_headers cfg)
                   (self_headless cfg) (self_bypass_proxy_for_driver cfg) env
         in case snd (snd b) of
              Inr rs \<Rightarrow> (fst b, fst (snd b), Inr (Some rs))
            | Inl e \<Rightarrow>
                if is_WebDriverException e then
                  (let d = search_text_tier2 cfg w query max_results (fst (snd b))
                   in (fst b @ fst d, snd d))
                else (fst b, fst (snd b), Inl e))
      else search_text_tier2 cfg w query max_results env)"

definition search_text ::
  "config \<Rightarrow> world \<Rightarrow> string \<Rightarrow> int \<Rightarrow> environ
     \<Rightarrow> event list \<times> environ \<times> (exc + pydict list option)" where
  "search_text cfg w query max_results env =
     (let p = primp_tier cfg w query max_results env
      in case snd p of
           Inl e \<Rightarrow> (fst p, env, Inl e)
         | Inr (Some out) \<Rightarrow> (fst p, env, Inr (Some out))
         | Inr None \<Rightarrow>
             (let t = search_text_tier1 cfg w query max_results env
              in (fst p @ fst t, snd t)))"

text \<open>\<^verbatim>\<open>_ddgs_text\<close>: \<^verbatim>\<open>kw.get("max_results", self.k)\<close>.\<close>

definition ddgs_text_method ::
  "config \<Rightarrow> world \<Rightarrow> string \<Rightarrow> int option \<Rightarrow> environ
     \<Rightarrow> event list \<times> environ \<times> (exc + pydict list option)" where
  "ddgs_text_method cfg w query kw_max_results env =
     search_text cfg w query
       (case kw_max_results of Some n \<Rightarrow> n | None \<Rightarrow> self_k cfg) env"

subsection \<open>Reading the event list\<close>

text \<open>The attempts of the ddgs client and the delays slept, in order.\<close>

fun call_attempt :: "call \<Rightarrow> nat option" where
  "call_attempt (DdgsCall proxy attempt) = Some attempt"
| "call_attempt c = None"

fun call_sleep :: "call \<Rightarrow> rat option" where
  "call_sleep (Sleep d) = Some d"
| "call_sleep c = None"


fun call_options :: "call \<Rightarrow> string list option" where
  "call_options (ChromeStart opts) = Some opts"
| "call_options c = None"

definition ddgs_attempts :: "event list \<Rightarrow> nat list" where
  "ddgs_attempts evs = List.map_filter (\<lambda>ev. call_attempt (snd ev)) evs"

definition sleeps :: "event list \<Rightarrow> rat list" where
  "sleeps evs = List.map_filter (\<lambda>ev. call_sleep (snd ev)) evs"


definition browser_starts :: "event list \<Rightarrow> string list list" where
  "browser_starts evs = List.map_filter (\<lambda>ev. call_options (snd ev)) evs"

text \<open>The tiers that made a call, each once, in the order of their first call.\<close>

definition tiers_run :: "event list \<Rightarrow> tier list" where
  "tiers_run evs = remdups_adj (map fst evs)"

text \<open>The order in which \<^verbatim>\<open>_search_text\<close> lists its tiers, for a configuration.\<close>

definition tier_order :: "config \<Rightarrow> tier list" where
  "tier_order cfg =
     [Primp] @ (if self_use_browser cfg then [Browser] else []) @ [Ddgs, Scrape]"

text \<open>What a tier's own code does, before the handler that \<^verbatim>\<open>_search_text\<close>
  puts around it: the list it returns or the exception it raises.\<close>

definition tier_outcome ::
  "config \<Rightarrow> world \<Rightarrow> string \<Rightarrow> int \<Rightarrow> environ \<Rightarrow> tier \<Rightarrow> exc + pydict list option" where
  "tier_outcome cfg w query max_results env t =
     (case t of
        Primp \<Rightarrow> snd (primp_attempt cfg w query max_results env)
      | Browser \<Rightarrow>
          (case snd (snd (browser_search w query max_results (self_proxy cfg)
                            (self_headers cfg) (self_headless cfg)
                            (self_bypass_proxy_for_driver cfg) env)) of
             Inl e \<Rightarrow> Inl e | Inr rs \<Rightarrow> Inr (Some rs))
      | Ddgs \<Rightarrow>
          snd (snd (with_ddgs (self_proxy cfg) (self_headers cfg)
                      (\<lambda>attempt. ddgs_text w attempt max_results) 3 (3 / 2) env))
      | Scrape \<Rightarrow>
          (case snd (requests_scrape w query max_results (self_proxy cfg)
                       (self_headers cfg)) of
             Inl e \<Rightarrow> Inl e | Inr rs \<Rightarrow> Inr (Some rs)))"

text \<open>The handler \<^verbatim>\<open>_search_text\<close> puts around each tier:
  \<^verbatim>\<open>except Exception\<close> around primp, \<^verbatim>\<open>except WebDriverException\<close> around the
  browser, \<^verbatim>\<open>except DDGSException\<close> around ddgs, none around the last tier.\<close>

fun handler_catches :: "tier \<Rightarrow> exc \<Rightarrow> bool" where
  "handler_catches Primp e = is_Exception e"
| "handler_catches Browser e = is_WebDriverException e"
| "handler_catches Ddgs e = is_DDGSException e"
| "handler_catches Scrape e = False"


text \<open>After a tier, \<^verbatim>\<open>_search_text\<close> goes on to the next one when the handler
  catches the tier's exception, and after primp also when primp leaves its
  block without returning.\<close>

definition falls_through :: "tier \<Rightarrow> exc + pydict list option \<Rightarrow> bool" where
  "falls_through t r =
     (case r of
        Inl e \<Rightarrow> handler_catches t e
      | Inr None \<Rightarrow> t = Primp
      | Inr (Some rs) \<Rightarrow> False)"

text \<open>A run of the dispatcher over the tiers \<open>order\<close>, seen from outside:
  the tiers \<open>ts\<close> that ran are a first part of \<open>order\<close>, every one of them
  but the last fell through, and the result \<open>r\<close> is what the last one did.
  \<open>outcome t\<close> is what tier \<open>t\<close> does on its own.\<close>

definition dispatched ::
  "(tier \<Rightarrow> exc + pydict list option) \<Rightarrow> tier list \<Rightarrow> tier list
     \<Rightarrow> exc + pydict list option \<Rightarrow> bool" where
  "dispatched outcome order ts r =
     (ts \<noteq> [] \<and> prefix ts order
      \<and> (\<forall>t\<in>set (butlast ts). falls_through t (outcome t))
      \<and> r = outcome (last ts) \<and> \<not> falls_through (last ts) r)"

text \<open>The \<^verbatim>\<open>id\<close> entries of a result list.\<close>

definition ids :: "pydict list \<Rightarrow> pyval option list" where
  "ids rs = map (\<lambda>d. d ''id'') rs"

subsection \<open>A concrete world\<close>

text \<open>A page with two result anchors and one snippet, libraries that all
  answer, and a ddgs client that returns one record of its own shape
  (\<^verbatim>\<open>title\<close>, \<^verbatim>\<open>href\<close>, \<^verbatim>\<open>body\<close>).\<close>

definition example_links :: "tag list" where
  "example_links =
     [\<lparr>tag_text = ''A'', tag_href = Some ''/a''\<rparr>, \<lparr>tag_text = ''B'', tag_href = Some ''/b''\<rparr>]"

definition example_world :: world where
  "example_world =
     \<lparr>soup_select = (\<lambda>selector html.
          if selector = ''a.result__a'' then example_links
          else [\<lparr>tag_text = ''s'', tag_href = None\<rparr>]),
      real_url = (\<lambda>raw. raw),
      url_quote = (\<lambda>q. q),
      urlencode_q = (\<lambda>q. ''q='' @ q),
      str_lower = (\<lambda>s. s),
      primp_import = None,
      primp_Client = None,
      primp_headers_update = None,
      primp_get = Inr \<lparr>status_code = 200, resp_text = ''p''\<rparr>,
      primp_close = None,
      chrome_environ = (\<lambda>env. env),
      webdriver_Chrome = None,
      execute_cdp_cmd = None,
      driver_get = None,
      driver_wait = None,
      page_source = ''b'',
      jitter = 0,
      driver_quit = None,
      ddgs_text = (\<lambda>attempt max_results.
          Inr [[''title'' \<mapsto> PyStr ''A'', ''href'' \<mapsto> PyStr ''/a'', ''body'' \<mapsto> PyStr ''s'']]),
      requests_post = Inr \<lparr>status_code = 200, resp_text = ''r''\<rparr>,
      raise_for_status = (\<lambda>resp.
          if 400 \<le> status_code resp \<and> status_code resp < 600
          then Some (Exc HTTPError ''status'') else None)\<rparr>"

definition example_world12 :: world where
  "example_world12 =
     example_world\<lparr>soup_select :=
       (\<lambda>selector html. replicate 12 \<lparr>tag_text = ''A'', tag_href = Some ''/a''\<rparr>)\<rparr>"

definition example_world_primp_down :: world where
  "example_world_primp_down = example_world\<lparr>primp_get := Inl (Exc RuntimeError ''down'')\<rparr>"

definition example_world_no_driver :: world where
  "example_world_no_driver =
     example_world\<lparr>chrome_environ := (\<lambda>env. env(''HTTP_PROXY'' \<mapsto> ''other'')),
                    webdriver_Chrome := Some (Exc WebDriverException ''no driver'')\<rparr>"

definition example_world_fallback :: world where
  "example_world_fallback =
     example_world_primp_down\<lparr>webdriver_Chrome := Some (Exc WebDriverException ''no driver'')\<rparr>"

definition example_world_bad_anchor :: world where
  "example_world_bad_anchor =
     example_world_primp_down\<lparr>soup_select :=
       (\<lambda>selector html. [\<lparr>tag_text = ''A'', tag_href = None\<rparr>])\<rparr>"

text \<open>Every tier fails: primp and the ddgs client raise, the POST is answered
  with status 503.\<close>

definition example_world_all_fail :: world where
  "example_world_all_fail =
     example_world_primp_down\<lparr>
       ddgs_text := (\<lambda>attempt max_results. Inl (Exc DDGSException ''ratelimit'')),
       requests_post := Inr \<lparr>status_code = 503, resp_text = []\<rparr>\<rparr>"

text \<open>Primp and the ddgs client raise, the POST is answered with a page.\<close>

definition example_world_scrape :: world where
  "example_world_scrape =
     example_world_primp_down\<lparr>
       ddgs_text := (\<lambda>attempt max_results. Inl (Exc DDGSException ''ratelimit''))\<rparr>"

definition example_config :: config where
  "example_config =
     \<lparr>self_k = 10, self_max_results = 10, self_region = None, self_safesearch = None,
      self_time = None, self_proxy = None, self_headers = None, self_use_browser = False,
      self_headless = True, self_bypass_proxy_for_driver = True\<rparr>"

definition example_config_browser :: config where
  "example_config_browser = example_config\<lparr>self_use_browser := True\<rparr>"

section \<open>Properties\<close>

subsection \<open>Which tier an event list shows\<close>

lemma tiers_run_single:
  "evs \<noteq> [] \<Longrightarrow> \<forall>ev\<in>set evs. fst ev = X \<Longrightarrow> tiers_run evs = [X]"
proof (induction evs)
  case Nil
  then show ?case by simp
next
  case (Cons ev evs)
  then show ?case
    by (cases evs) (auto simp: tiers_run_def)
qed

lemma tiers_run_tagged:
  assumes "tiers_run a = [X]"
  shows "a \<noteq> [] \<and> (\<forall>ev\<in>set a. fst ev = X)"
proof -
  have "set (remdups_adj (map fst a)) = {X}"
    using assms by (simp add: tiers_run_def)
  then have "fst ` set a = {X}" by simp
  then show ?thesis by auto
qed

lemma tiers_run_cons_same:
  "a \<noteq> [] \<Longrightarrow> \<forall>ev\<in>set a. fst ev = X \<Longrightarrow> b \<noteq> [] \<Longrightarrow> fst (hd b) \<noteq> X
     \<Longrightarrow> tiers_run (a @ b) = X # tiers_run b"
proof (induction a)
  case Nil
  then show ?case by simp
next
  case (Cons ev a)
  show ?case
  proof (cases a)
    case Nil
    with Cons.prems show ?thesis
      by (cases b) (auto simp: tiers_run_def)
  next
    case (Cons ev' a')
    with Cons.prems Cons.IH show ?thesis
      by (auto simp: tiers_run_def)
  qed
qed

lemma tiers_run_append:
  assumes "tiers_run a = [X]" and "tiers_run b = Y # ys" and "Y \<noteq> X"
  shows "tiers_run (a @ b) = X # Y # ys"
proof -
  from assms(2) have b: "b \<noteq> []" by (auto simp: tiers_run_def)
  have "hd (remdups_adj (map fst b)) = Y"
    using assms(2) by (simp add: tiers_run_def)
  then have "fst (hd b) = Y"
    using b by (simp add: hd_remdups_adj hd_map)
  with tiers_run_tagged [OF assms(1)] b assms(3)
  have "tiers_run (a @ b) = X # tiers_run b"
    by (intro tiers_run_cons_same) auto
  with assms(2) show ?thesis by simp
qed

lemma with_ddgs_loop_tags:
  "\<forall>ev\<in>set (fst (with_ddgs_loop p fn retries backoff xs s)). fst ev = Ddgs"
  by (induction xs arbitrary: s) (auto split: sum.splits simp: split_beta)

lemma with_ddgs_loop_nonempty:
  "xs \<noteq> [] \<Longrightarrow> fst (with_ddgs_loop p fn retries backoff xs s) \<noteq> []"
  by (cases xs) (auto split: sum.splits prod.splits)

lemma with_ddgs_loop_result_indep:
  "snd (with_ddgs_loop p fn retries backoff xs s) = snd (with_ddgs_loop p' fn retries backoff xs s')"
proof (induction xs arbitrary: s s')
  case Nil
  then show ?case by simp
next
  case (Cons a xs)
  have "snd (with_ddgs_loop p fn retries backoff xs (s * backoff))
      = snd (with_ddgs_loop p' fn retries backoff xs (s' * backoff))"
    by (rule Cons.IH)
  then show ?case
    by (auto split: sum.splits prod.splits)
qed

lemma with_ddgs_run:
  "tiers_run (fst (with_ddgs p h fn 3 b env)) = [Ddgs]"
proof -
  have l: "[1 ..< 3 + 1] = [1, 2, Suc 2]" by (simp add: upt_rec)
  show ?thesis
    unfolding with_ddgs_def Let_def
    apply (simp only: split_beta fst_conv)
    apply (rule tiers_run_single)
     apply (rule with_ddgs_loop_nonempty, simp)
    apply (rule with_ddgs_loop_tags)
    done
qed

lemma with_ddgs_result_env:
  "snd (snd (with_ddgs p h fn r b env)) = snd (snd (with_ddgs p h fn r b env2))"
  unfolding with_ddgs_def Let_def
  by (simp only: split_beta snd_conv) (rule with_ddgs_loop_result_indep)

lemma primp_attempt_run:
  "tiers_run (fst (primp_attempt cfg w q n env)) = [Primp]"
  by (rule tiers_run_single)
     (auto simp: primp_attempt_def primp_request_def Let_def split: option.splits sum.splits)

lemma browser_search_run:
  "tiers_run (fst (browser_search w q n p h hl bp env)) = [Browser]"
  by (rule tiers_run_single)
     (auto simp: browser_search_def new_driver_def browser_page_def Let_def
           split: option.splits sum.splits)

lemma browser_search_result_env:
  "snd (snd (browser_search w q n p h hl bp env)) = snd (snd (browser_search w q n p h hl bp env2))"
  by (auto simp: browser_search_def new_driver_def Let_def split: option.splits)

lemma requests_scrape_run:
  "tiers_run (fst (requests_scrape w q n p h)) = [Scrape]"
  by (rule tiers_run_single)
     (auto simp: requests_scrape_def Let_def split: option.splits sum.splits)

subsection \<open>The ddgs tier: retries, delays, the environment\<close>

text \<open>
  Claim C3. \<^verbatim>\<open>_with_ddgs\<close>, with the \<^verbatim>\<open>retries = 3\<close> and \<^verbatim>\<open>backoff = 1.5\<close> it is
  always called with, opens the client at most three times, at the attempts
  1, 2, ... in order. Between two attempts it sleeps once: the delays are the
  first ones of 0.01, 0.01 * 1.5 (one fewer than the attempts), so they grow
  strictly. When all three attempts raise a \<^verbatim>\<open>DDGSException\<close>, three attempts
  are made and the exception of the third is the one that leaves the
  function. (The delays are exact rationals here, floats in the source.)
\<close>

theorem with_ddgs_retry_backoff:
  assumes "with_ddgs proxy headers fn 3 (3 / 2) env = (evs, env', r)"
  shows "length (ddgs_attempts evs) \<le> 3
     \<and> ddgs_attempts evs = [1 ..< Suc (length (ddgs_attempts evs))]
     \<and> sleeps evs = take (length (ddgs_attempts evs) - 1) [1 / 100, 1 / 100 * (3 / 2)]
     \<and> sorted_wrt (<) (sleeps evs)
     \<and> (\<forall>e1 e2 e3. fn 1 = Inl e1 \<and> is_DDGSException e1
            \<and> fn 2 = Inl e2 \<and> is_DDGSException e2
            \<and> fn 3 = Inl e3 \<and> is_DDGSException e3
          \<longrightarrow> r = Inl e3 \<and> ddgs_attempts evs = [1, 2, 3])"
proof -
  have l: "[1 ..< 3 + 1] = [1, 2, Suc 2]" by (simp add: upt_rec)
  show ?thesis
    using assms
    unfolding with_ddgs_def Let_def l
    by (auto simp: ddgs_attempts_def sleeps_def List.map_filter_simps
             split: sum.splits if_splits prod.splits)
qed

theorem with_ddgs_retry_backoff_witness:
  "\<exists>evs env'.
     with_ddgs None None
       (\<lambda>attempt. Inl (Exc DDGSException (if attempt = 3 then ''third'' else ''early''))
          :: exc + unit)
       3 (3 / 2) Map.empty
     = (evs, env', Inl (Exc DDGSException ''third''))
     \<and> ddgs_attempts evs = [1, 2, 3] \<and> sleeps evs = [1 / 100, 3 / 200]"
proof -
  define fn :: "nat \<Rightarrow> exc + unit"
    where "fn = (\<lambda>attempt. Inl (Exc DDGSException (if attempt = 3 then ''third'' else ''early'')))"
  obtain evs env' r where run: "with_ddgs None None fn 3 (3 / 2) Map.empty = (evs, env', r)"
    by (metis prod_cases3)
  have "fn 1 = Inl (Exc DDGSException ''early'')" "fn 2 = Inl (Exc DDGSException ''early'')"
    "fn 3 = Inl (Exc DDGSException ''third'')" "is_DDGSException (Exc DDGSException m)" for m
    by (simp_all add: fn_def is_DDGSException_def)
  with with_ddgs_retry_backoff [OF run]
  have "r = Inl (Exc DDGSException ''third'')" "ddgs_attempts evs = [1, 2, 3]"
    "sleeps evs = [1 / 100, 3 / 200]"
    by simp_all
  with run show ?thesis
    unfolding fn_def by blast
qed

text \<open>
  Claim C7. \<^verbatim>\<open>_with_ddgs\<close> writes the proxy to the environment with
  \<^verbatim>\<open>setdefault\<close>: a value that \<^verbatim>\<open>HTTP_PROXY\<close> (or \<^verbatim>\<open>HTTPS_PROXY\<close>) had before the
  call is the value it has after the call, whatever proxy the call was given
  and however the call ends. A variable that was absent takes the caller's
  proxy, and no other variable changes.
\<close>

theorem with_ddgs_keeps_proxy_env:
  assumes "with_ddgs proxy headers fn retries backoff env = (evs, env', r)"
  shows "(\<forall>v. env ''HTTP_PROXY'' = Some v \<longrightarrow> env' ''HTTP_PROXY'' = Some v)
       \<and> (\<forall>v. env ''HTTPS_PROXY'' = Some v \<longrightarrow> env' ''HTTPS_PROXY'' = Some v)
       \<and> (\<forall>p. env ''HTTP_PROXY'' = None \<and> proxy = Some p \<and> p \<noteq> []
              \<longrightarrow> env' ''HTTP_PROXY'' = Some p)
       \<and> (\<forall>var. var \<noteq> ''HTTP_PROXY'' \<and> var \<noteq> ''HTTPS_PROXY'' \<longrightarrow> env' var = env var)"
  using assms
  unfolding with_ddgs_def Let_def
  by (auto simp: setdefault_def py_or_def truthy_def getenv_def
           split: option.splits if_splits prod.splits)

theorem with_ddgs_keeps_proxy_env_witness:
  "\<exists>evs env' r.
     with_ddgs (Some ''new'') None (\<lambda>attempt. Inr () :: exc + unit) 3 (3 / 2)
       [''HTTP_PROXY'' \<mapsto> ''old''] = (evs, env', r)
     \<and> env' ''HTTP_PROXY'' = Some ''old'' \<and> env' ''HTTPS_PROXY'' = Some ''new''"
proof -
  obtain evs env' r where run:
    "with_ddgs (Some ''new'') None (\<lambda>attempt. Inr () :: exc + unit) 3 (3 / 2)
       [''HTTP_PROXY'' \<mapsto> ''old''] = (evs, env', r)"
    by (metis prod_cases3)
  from with_ddgs_keeps_proxy_env [OF run] have "env' ''HTTP_PROXY'' = Some ''old''" by simp
  moreover have "env' ''HTTPS_PROXY'' = Some ''new''"
    using run unfolding with_ddgs_def Let_def
    by (auto simp: setdefault_def py_or_def truthy_def getenv_def split: prod.splits)
  ultimately show ?thesis using run by (intro exI conjI)
qed

subsection \<open>The browser tier: the environment and the browser's arguments\<close>

lemma pop_vars_saved:
  "snd (pop_vars [''HTTP_PROXY'', ''HTTPS_PROXY''] env Map.empty) ''HTTP_PROXY''
     = env ''HTTP_PROXY''
   \<and> snd (pop_vars [''HTTP_PROXY'', ''HTTPS_PROXY''] env Map.empty) ''HTTPS_PROXY''
     = env ''HTTPS_PROXY''"
  by (simp split: option.splits)

lemma new_driver_environ:
  "fst (snd (new_driver w proxy headers headless True env))
     = chrome_environ w (fst (pop_vars [''HTTP_PROXY'', ''HTTPS_PROXY''] env Map.empty))
       ++ snd (pop_vars [''HTTP_PROXY'', ''HTTPS_PROXY''] env Map.empty)"
  unfolding new_driver_def Let_def
  by (simp del: pop_vars.simps split: option.splits)

lemma new_driver_restores:
  assumes "env var = Some v" and "var = ''HTTP_PROXY'' \<or> var = ''HTTPS_PROXY''"
  shows "fst (snd (new_driver w proxy headers headless True env)) var = Some v"
proof -
  have "snd (pop_vars [''HTTP_PROXY'', ''HTTPS_PROXY''] env Map.empty) var = Some v"
    using assms pop_vars_saved [of env] by metis
  then show ?thesis
    unfolding new_driver_environ map_add_Some_iff by (rule disjI1)
qed

text \<open>
  Claim C6. With \<^verbatim>\<open>bypass_proxy_for_driver\<close> true, a value that \<^verbatim>\<open>HTTP_PROXY\<close> or
  \<^verbatim>\<open>HTTPS_PROXY\<close> had before \<^verbatim>\<open>_browser_search\<close> is the value it has when the call
  is over, whether the driver started or starting it raised, and whatever
  starting the driver did to the environment in between.
\<close>

theorem browser_search_restores_proxy_env:
  assumes "browser_search w query max_results proxy headers headless True env = (evs, env', r)"
  shows "(\<forall>v. env ''HTTP_PROXY'' = Some v \<longrightarrow> env' ''HTTP_PROXY'' = Some v)
       \<and> (\<forall>v. env ''HTTPS_PROXY'' = Some v \<longrightarrow> env' ''HTTPS_PROXY'' = Some v)"
proof -
  have e: "env' = fst (snd (new_driver w proxy headers headless True env))"
    using assms unfolding browser_search_def Let_def
    by (auto split: option.splits)
  show ?thesis
    using new_driver_restores [of env "''HTTP_PROXY''" _ w proxy headers headless]
      new_driver_restores [of env "''HTTPS_PROXY''" _ w proxy headers headless] e
    by simp
qed

theorem browser_search_restores_proxy_env_witness:
  "\<exists>evs env' evs2 env2 rs.
     browser_search example_world_no_driver ''q'' 5 None None True True
       [''HTTP_PROXY'' \<mapsto> ''p'', ''HTTPS_PROXY'' \<mapsto> ''s'']
     = (evs, env', Inl (Exc WebDriverException ''no driver''))
     \<and> env' ''HTTP_PROXY'' = Some ''p'' \<and> env' ''HTTPS_PROXY'' = Some ''s''
     \<and> browser_search example_world ''q'' 5 None None True True
          [''HTTP_PROXY'' \<mapsto> ''p'', ''HTTPS_PROXY'' \<mapsto> ''s'']
        = (evs2, env2, Inr rs)
     \<and> env2 ''HTTP_PROXY'' = Some ''p'' \<and> env2 ''HTTPS_PROXY'' = Some ''s''"
proof -
  let ?env = "[''HTTP_PROXY'' \<mapsto> ''p'', ''HTTPS_PROXY'' \<mapsto> ''s'']"
  obtain evs env' r where run:
    "browser_search example_world_no_driver ''q'' 5 None None True True ?env = (evs, env', r)"
    by (metis prod_cases3)
  have "snd (snd (browser_search example_world_no_driver ''q'' 5 None None True True ?env))
          = Inl (Exc WebDriverException ''no driver'')"
    by (simp add: browser_search_def new_driver_def Let_def example_world_no_driver_def
          example_world_def del: pop_vars.simps)
  with run have r: "r = Inl (Exc WebDriverException ''no driver'')" by simp
  obtain evs2 env2 r2 where run2:
    "browser_search example_world ''q'' 5 None None True True ?env = (evs2, env2, r2)"
    by (metis prod_cases3)
  have "\<exists>rs. snd (snd (browser_search example_world ''q'' 5 None None True True ?env)) = Inr rs"
    by (simp add: browser_search_def new_driver_def Let_def example_world_def
          truthy_headers_def browser_page_def py_finally_def suppress_Exception_def
          INTERNAL_MAX_RETURN_def py_slice_to_def example_links_def enumerate_eq_zip
          browser_entry_def del: pop_vars.simps)
  with run2 obtain rs where r2: "r2 = Inr rs" by auto
  from browser_search_restores_proxy_env [OF run]
  have "env' ''HTTP_PROXY'' = Some ''p''" "env' ''HTTPS_PROXY'' = Some ''s''" by simp_all
  moreover from browser_search_restores_proxy_env [OF run2]
  have "env2 ''HTTP_PROXY'' = Some ''p''" "env2 ''HTTPS_PROXY'' = Some ''s''" by simp_all
  ultimately show ?thesis
    using run run2 unfolding r r2 by (intro exI conjI)
qed

text \<open>
  Claim C9, which the code does not meet. \<^verbatim>\<open>_new_driver\<close> never reads its
  \<^verbatim>\<open>headless\<close> parameter: it gives the browser \<^verbatim>\<open>--headless\<close> in every call. So a
  call with \<^verbatim>\<open>headless=False\<close> does exactly what the call with \<^verbatim>\<open>headless=True\<close>
  does, and a search configured with \<^verbatim>\<open>use_browser=True, headless=False\<close> starts
  the browser with \<^verbatim>\<open>--headless\<close>.
\<close>

theorem new_driver_always_headless:
  "new_driver w proxy headers False bypass env = new_driver w proxy headers True bypass env
   \<and> ''--headless'' \<in> set (driver_options proxy False)
   \<and> browser_starts
       (fst (search_text (example_config\<lparr>self_use_browser := True, self_headless := False\<rparr>)
               example_world_primp_down ''q'' 5 Map.empty))
     = [[''--headless'', ''--disable-gpu'', ''--disable-dev-shm-usage'', ''--no-sandbox'']]"
  apply (intro conjI)
    apply (simp add: new_driver_def driver_options_def)
   apply (simp add: driver_options_def)
  apply (simp add: search_text_def search_text_tier1_def primp_tier_def primp_attempt_def
      primp_request_def example_config_def example_world_def example_world_primp_down_def
      Let_def truthy_headers_def
      getenv_def is_Exception_def py_finally_def suppress_Exception_def
      browser_search_def new_driver_def browser_page_def driver_options_def
      py_slice_to_def INTERNAL_MAX_RETURN_def example_links_def enumerate_eq_zip
      browser_entry_def browser_starts_def List.map_filter_simps)
  done


subsection \<open>The dispatcher\<close>

lemma with_ddgs_not_None:
  "snd (snd (with_ddgs p h fn 3 b env)) \<noteq> Inr None"
proof -
  have l: "[1 ..< 3 + 1] = [1, 2, Suc 2]" by (simp add: upt_rec)
  show ?thesis
    unfolding with_ddgs_def Let_def l
    by (auto split: sum.splits if_splits prod.splits)
qed

lemma tier_outcome_env:
  "t \<noteq> Primp \<Longrightarrow> tier_outcome cfg w q n env t = tier_outcome cfg w q n env2 t"
  using with_ddgs_result_env [of "self_proxy cfg" "self_headers cfg" _ 3 "3 / 2" env env2]
    browser_search_result_env [of w q n "self_proxy cfg" "self_headers cfg" "self_headless cfg"
      "self_bypass_proxy_for_driver cfg" env env2]
  by (cases t) (simp_all add: tier_outcome_def)

lemma search_text_tier3_trace:
  assumes "search_text_tier3 cfg w q n env = (evs, env', r)"
  shows "tiers_run evs = [Scrape] \<and> r = tier_outcome cfg w q n env0 Scrape
         \<and> \<not> falls_through Scrape r \<and> env' = env"
  using assms requests_scrape_run [of w q n "self_proxy cfg" "self_headers cfg"]
  by (auto simp: search_text_tier3_def Let_def tier_outcome_def falls_through_def
           split: sum.splits)

lemma search_text_tier2_trace:
  assumes "search_text_tier2 cfg w q n env = (evs, env', r)"
  shows "(tiers_run evs = [Ddgs] \<and> r = tier_outcome cfg w q n env0 Ddgs
            \<and> \<not> falls_through Ddgs r)
       \<or> (tiers_run evs = [Ddgs, Scrape] \<and> falls_through Ddgs (tier_outcome cfg w q n env0 Ddgs)
            \<and> r = tier_outcome cfg w q n env0 Scrape \<and> \<not> falls_through Scrape r)"
proof -
  let ?d = "with_ddgs (self_proxy cfg) (self_headers cfg)
              (\<lambda>attempt. ddgs_text w attempt n) 3 (3 / 2) env"
  have run: "tiers_run (fst ?d) = [Ddgs]" by (rule with_ddgs_run)
  have out: "snd (snd ?d) = tier_outcome cfg w q n env0 Ddgs"
    using tier_outcome_env [of Ddgs cfg w q n env env0] by (simp add: tier_outcome_def)
  have nn: "snd (snd ?d) \<noteq> Inr None" by (rule with_ddgs_not_None)
  show ?thesis
  proof (cases "snd (snd ?d)")
    case (Inr v)
    with assms have "evs = fst ?d" "r = Inr v"
      by (auto simp: search_text_tier2_def Let_def)
    moreover have "tier_outcome cfg w q n env0 Ddgs = Inr v"
      using out Inr by simp
    moreover have "v \<noteq> None"
      using nn Inr by simp
    ultimately show ?thesis
      using run by (cases v) (simp_all add: falls_through_def)
  next
    case (Inl e)
    show ?thesis
    proof (cases "is_DDGSException e")
      case False
      with assms Inl have "evs = fst ?d" "r = Inl e"
        by (auto simp: search_text_tier2_def Let_def)
      moreover have "tier_outcome cfg w q n env0 Ddgs = Inl e"
        using out Inl by simp
      ultimately show ?thesis
        using run False by (simp add: falls_through_def)
    next
      case True
      obtain evs3 env3 r3 where s3:
        "search_text_tier3 cfg w q n (fst (snd ?d)) = (evs3, env3, r3)"
        by (metis prod_cases3)
      from assms Inl True s3 have e: "evs = fst ?d @ evs3" "r = r3"
        by (auto simp: search_text_tier2_def Let_def)
      from search_text_tier3_trace [OF s3, of env0]
      have t3: "tiers_run evs3 = [Scrape]" "r3 = tier_outcome cfg w q n env0 Scrape"
        "\<not> falls_through Scrape r3" by auto
      have "tiers_run evs = [Ddgs, Scrape]"
        unfolding e by (rule tiers_run_append [OF run t3(1)]) simp
      moreover have "tier_outcome cfg w q n env0 Ddgs = Inl e"
        using out Inl by simp
      then have "falls_through Ddgs (tier_outcome cfg w q n env0 Ddgs)"
        using True by (simp add: falls_through_def)
      moreover note t3 e
      ultimately show ?thesis by simp
    qed
  qed
qed


lemma dispatched_stop:
  assumes "ts = [X]" and "outcome X = r" and "\<not> falls_through X r"
  shows "dispatched outcome (X # order) ts r"
  using assms by (auto simp: dispatched_def)

lemma dispatched_step:
  assumes a: "tiers_run a = [X]" and X: "X \<notin> set order"
    and d: "dispatched outcome order (tiers_run b) r"
    and F: "falls_through X (outcome X)"
  shows "dispatched outcome (X # order) (tiers_run (a @ b)) r"
proof -
  from d obtain Y ys where b: "tiers_run b = Y # ys"
    by (cases "tiers_run b") (auto simp: dispatched_def)
  from d b have "Y \<in> set order"
    by (auto simp: dispatched_def prefix_def)
  with X have "Y \<noteq> X" by auto
  with a b have ab: "tiers_run (a @ b) = X # Y # ys"
    by (rule tiers_run_append)
  show ?thesis
    using d F unfolding ab dispatched_def b
    by (auto split: if_splits)
qed

lemma search_text_tier3_dispatched:
  assumes "search_text_tier3 cfg w q n env = (evs, env', r)"
  shows "dispatched (tier_outcome cfg w q n env0) [Scrape] (tiers_run evs) r"
  using search_text_tier3_trace [OF assms, of env0]
  by (auto simp: dispatched_def)

lemma search_text_tier2_dispatched:
  assumes "search_text_tier2 cfg w q n env = (evs, env', r)"
  shows "dispatched (tier_outcome cfg w q n env0) [Ddgs, Scrape] (tiers_run evs) r"
  using search_text_tier2_trace [OF assms, of env0]
  by (auto simp: dispatched_def)

lemma search_text_tier1_dispatched:
  assumes "search_text_tier1 cfg w q n env = (evs, env', r)"
  shows "dispatched (tier_outcome cfg w q n env0)
           ((if self_use_browser cfg then [Browser] else []) @ [Ddgs, Scrape])
           (tiers_run evs) r"
proof (cases "self_use_browser cfg")
  case False
  with assms have "search_text_tier2 cfg w q n env = (evs, env', r)"
    by (simp add: search_text_tier1_def)
  from search_text_tier2_dispatched [OF this] False show ?thesis by simp
next
  case True
  let ?b = "browser_search w q n (self_proxy cfg) (self_headers cfg) (self_headless cfg)
              (self_bypass_proxy_for_driver cfg) env"
  have run: "tiers_run (fst ?b) = [Browser]" by (rule browser_search_run)
  have out: "tier_outcome cfg w q n env0 Browser
               = (case snd (snd ?b) of Inl e \<Rightarrow> Inl e | Inr rs \<Rightarrow> Inr (Some rs))"
    using tier_outcome_env [of Browser cfg w q n env0 env] by (simp add: tier_outcome_def)
  show ?thesis
  proof (cases "snd (snd ?b)")
    case (Inr rs)
    with assms True have "evs = fst ?b" "r = Inr (Some rs)"
      by (auto simp: search_text_tier1_def Let_def)
    moreover have "tier_outcome cfg w q n env0 Browser = Inr (Some rs)"
      using out Inr by simp
    ultimately show ?thesis
      using run True by (auto intro!: dispatched_stop simp: falls_through_def)
  next
    case (Inl e)
    then have o: "tier_outcome cfg w q n env0 Browser = Inl e"
      using out by simp
    show ?thesis
    proof (cases "is_WebDriverException e")
      case False
      with assms True Inl have "evs = fst ?b" "r = Inl e"
        by (auto simp: search_text_tier1_def Let_def)
      with run o False True show ?thesis
        by (auto intro!: dispatched_stop simp: falls_through_def)
    next
      case wd: True
      obtain evs2 env2 r2 where s2:
        "search_text_tier2 cfg w q n (fst (snd ?b)) = (evs2, env2, r2)"
        by (metis prod_cases3)
      from assms True Inl wd s2 have e: "evs = fst ?b @ evs2" "r = r2"
        by (auto simp: search_text_tier1_def Let_def)
      have "dispatched (tier_outcome cfg w q n env0) (Browser # [Ddgs, Scrape])
              (tiers_run (fst ?b @ evs2)) r2"
        using run _ search_text_tier2_dispatched [OF s2, of env0]
      proof (rule dispatched_step)
        show "Browser \<notin> set [Ddgs, Scrape]" by simp
        show "falls_through Browser (tier_outcome cfg w q n env0 Browser)"
          using o wd by (simp add: falls_through_def)
      qed
      with e True show ?thesis by simp
    qed
  qed
qed

lemma primp_tier_run:
  "tiers_run (fst (primp_tier cfg w q n env)) = [Primp]"
  using primp_attempt_run [of cfg w q n env] by (simp add: primp_tier_def Let_def)

lemma search_text_dispatched:
  assumes "search_text cfg w q n env = (evs, env', r)"
  shows "dispatched (tier_outcome cfg w q n env) (tier_order cfg) (tiers_run evs) r"
proof -
  let ?a = "primp_attempt cfg w q n env"
  let ?p = "primp_tier cfg w q n env"
  have run: "tiers_run (fst ?p) = [Primp]" by (rule primp_tier_run)
  have out: "tier_outcome cfg w q n env Primp = snd ?a"
    by (simp add: tier_outcome_def)
  have order: "tier_order cfg
                 = Primp # ((if self_use_browser cfg then [Browser] else []) @ [Ddgs, Scrape])"
    by (simp add: tier_order_def)
  show ?thesis
  proof (cases "falls_through Primp (snd ?a)")
    case False
    then have "snd ?p = snd ?a" "snd ?a \<noteq> Inr None"
      by (auto simp: primp_tier_def Let_def falls_through_def split: sum.splits option.splits)
    with assms have "evs = fst ?p" "r = snd ?a"
      by (auto simp: search_text_def Let_def split: sum.splits option.splits)
    with run out False show ?thesis
      unfolding order by (auto intro!: dispatched_stop)
  next
    case True
    then have pn: "snd ?p = Inr None"
      by (auto simp: primp_tier_def Let_def falls_through_def split: sum.splits option.splits)
    obtain evs1 env1 r1 where s1: "search_text_tier1 cfg w q n env = (evs1, env1, r1)"
      by (metis prod_cases3)
    from assms pn s1 have e: "evs = fst ?p @ evs1" "r = r1"
      by (auto simp: search_text_def Let_def)
    have "dispatched (tier_outcome cfg w q n env)
            (Primp # ((if self_use_browser cfg then [Browser] else []) @ [Ddgs, Scrape]))
            (tiers_run (fst ?p @ evs1)) r1"
      using run _ search_text_tier1_dispatched [OF s1, of env]
    proof (rule dispatched_step)
      show "Primp \<notin> set ((if self_use_browser cfg then [Browser] else []) @ [Ddgs, Scrape])"
        by simp
      show "falls_through Primp (tier_outcome cfg w q n env Primp)"
        using True out by simp
    qed
    with e show ?thesis unfolding order by simp
  qed
qed


lemma dispatched_last_only:
  assumes d: "dispatched outcome order ts r" and t: "t \<in> set ts"
    and n: "\<not> falls_through t (outcome t)"
  shows "t = last ts \<and> r = outcome t"
proof -
  from d have ne: "ts \<noteq> []" by (simp add: dispatched_def)
  from d n have "t \<notin> set (butlast ts)" by (auto simp: dispatched_def)
  moreover have "set ts = set (butlast ts) \<union> {last ts}"
  proof -
    have "set ts = set (butlast ts @ [last ts])" using ne by simp
    also have "\<dots> = set (butlast ts) \<union> {last ts}" unfolding set_append by simp
    finally show ?thesis .
  qed
  ultimately have "t = last ts" using t by auto
  with d show ?thesis by (simp add: dispatched_def)
qed

lemma dispatched_caught_not_last:
  assumes d: "dispatched outcome order ts r" and f: "falls_through t (outcome t)"
  shows "t \<noteq> last ts"
  using d f by (auto simp: dispatched_def)

subsection \<open>Runs in the concrete world\<close>

lemmas eval_defs =
  search_text_def search_text_tier1_def search_text_tier2_def search_text_tier3_def
  primp_tier_def primp_attempt_def primp_request_def primp_params_def primp_limit_def
  primp_entry_def browser_search_def new_driver_def browser_page_def browser_entry_def
  driver_options_def requests_scrape_def scrape_entry_def with_ddgs_def with_user_agent_def
  result_entry_def py_slice_to_def py_finally_def suppress_Exception_def py_or_def
  truthy_def truthy_headers_def getenv_def setdefault_def is_Exception_def
  is_WebDriverException_def is_DDGSException_def INTERNAL_MAX_RETURN_def
  example_world_def example_world_primp_down_def example_world_no_driver_def
  example_world_fallback_def example_world_bad_anchor_def example_world12_def
  example_world_all_fail_def example_world_scrape_def
  example_config_def example_config_browser_def example_links_def enumerate_eq_zip Let_def

lemma upt_1_4: "[1 ..< 3 + 1] = [1, 2, Suc 2]" "[Suc 0 ..< 4] = [Suc 0, 2, 3]"
  by (simp_all add: upt_rec)

lemma example_run_primp_down:
  "search_text example_config example_world_primp_down ''q'' 5 Map.empty
     = ([(Primp, PrimpImport), (Primp, PrimpClient ''chrome_131'' ''windows'' None),
         (Primp, PrimpGet [(''q'', ''q'')]), (Primp, PrimpClose), (Ddgs, DdgsCall None 1)],
        Map.empty,
        Inr (Some [[''title'' \<mapsto> PyStr ''A'', ''href'' \<mapsto> PyStr ''/a'', ''body'' \<mapsto> PyStr ''s'']]))"
  by (simp add: eval_defs upt_1_4)

lemma example_outcome_primp_down:
  "tier_outcome example_config example_world_primp_down ''q'' 5 Map.empty Primp
     = Inl (Exc RuntimeError ''down'')"
  by (simp add: tier_outcome_def eval_defs)



lemma example_run_bad_anchor:
  "search_text example_config_browser example_world_bad_anchor ''q'' 5 Map.empty
     = ([(Primp, PrimpImport), (Primp, PrimpClient ''chrome_131'' ''windows'' None),
         (Primp, PrimpGet [(''q'', ''q'')]), (Primp, PrimpClose),
         (Browser, ChromeStart [''--headless'', ''--disable-gpu'', ''--disable-dev-shm-usage'',
                                ''--no-sandbox'']),
         (Browser, DriverGet ''https://duckduckgo.com/html/?q=q''), (Browser, DriverWait),
         (Browser, Sleep 0), (Browser, DriverQuit)],
        Map.empty, Inl (Exc KeyError ''href''))"
  by (simp add: eval_defs)

lemma example_outcome_bad_anchor:
  "tier_outcome example_config_browser example_world_bad_anchor ''q'' 5 Map.empty Browser
     = Inl (Exc KeyError ''href'')"
  by (simp add: tier_outcome_def eval_defs)

subsection \<open>The order of the tiers and the handlers\<close>



text \<open>
  Claim C2, as the code has it. The handler around the browser tier catches
  \<^verbatim>\<open>WebDriverException\<close> only, the handler around the ddgs tier
  \<^verbatim>\<open>DDGSException\<close> only, and the last tier has no handler: an exception of any
  other class that one of these tiers raises is the exception that leaves
  \<^verbatim>\<open>_search_text\<close>. The handler around the primp tier is \<^verbatim>\<open>except Exception\<close>: it
  catches every exception that derives from \<^verbatim>\<open>Exception\<close>, of whatever class,
  and the dispatcher goes on to the next tier; only an exception outside
  \<^verbatim>\<open>Exception\<close> leaves \<^verbatim>\<open>_search_text\<close> from there. A caught exception of a
  tier means that tier is not the last one that ran.
\<close>

theorem search_text_handlers:
  assumes "search_text cfg w query max_results env = (evs, env', r)"
    and "t \<in> set (tiers_run evs)"
    and "tier_outcome cfg w query max_results env t = Inl e"
  shows "(t = Primp \<and> is_Exception e \<longrightarrow> t \<noteq> last (tiers_run evs))
       \<and> (t = Primp \<and> \<not> is_Exception e \<longrightarrow> r = Inl e)
       \<and> (t = Browser \<and> is_WebDriverException e \<longrightarrow> t \<noteq> last (tiers_run evs))
       \<and> (t = Browser \<and> \<not> is_WebDriverException e \<longrightarrow> r = Inl e)
       \<and> (t = Ddgs \<and> is_DDGSException e \<longrightarrow> t \<noteq> last (tiers_run evs))
       \<and> (t = Ddgs \<and> \<not> is_DDGSException e \<longrightarrow> r = Inl e)
       \<and> (t = Scrape \<longrightarrow> r = Inl e)
       \<and> r = tier_outcome cfg w query max_results env (last (tiers_run evs))"
proof -
  let ?O = "tier_outcome cfg w query max_results env"
  have d: "dispatched ?O (tier_order cfg) (tiers_run evs) r"
    using assms(1) by (rule search_text_dispatched)
  have caught: "t \<noteq> last (tiers_run evs)" if "handler_catches t e"
    using d that assms(3) by (intro dispatched_caught_not_last [OF d]) (simp add: falls_through_def)
  have raised: "r = Inl e" if "\<not> handler_catches t e"
    using dispatched_last_only [OF d assms(2)] that assms(3) by (simp add: falls_through_def)
  have "r = ?O (last (tiers_run evs))"
    using d by (simp add: dispatched_def)
  then show ?thesis
    using caught raised by (cases t) auto
qed

theorem search_text_handlers_witness:
  "\<exists>evs env' r evs2 env2 r2.
     search_text example_config example_world_primp_down ''q'' 5 Map.empty = (evs, env', r)
     \<and> Primp \<in> set (tiers_run evs)
     \<and> tier_outcome example_config example_world_primp_down ''q'' 5 Map.empty Primp
         = Inl (Exc RuntimeError ''down'')
     \<and> Primp \<noteq> last (tiers_run evs)
     \<and> search_text example_config_browser example_world_bad_anchor ''q'' 5 Map.empty
         = (evs2, env2, r2)
     \<and> Browser \<in> set (tiers_run evs2)
     \<and> tier_outcome example_config_browser example_world_bad_anchor ''q'' 5 Map.empty Browser
         = Inl (Exc KeyError ''href'')
     \<and> r2 = Inl (Exc KeyError ''href'')"
proof -
  note run = example_run_primp_down
  note run2 = example_run_bad_anchor
  have e: "is_Exception (Exc RuntimeError ''down'')"
    "\<not> is_WebDriverException (Exc KeyError ''href'')"
    by (simp_all add: is_Exception_def is_WebDriverException_def)
  have "Primp \<noteq> last (tiers_run (fst (search_text example_config example_world_primp_down
                                         ''q'' 5 Map.empty)))"
    using search_text_handlers [OF run _ example_outcome_primp_down] e
    by (simp add: run tiers_run_def)
  moreover have "snd (snd (search_text example_config_browser example_world_bad_anchor
                             ''q'' 5 Map.empty)) = Inl (Exc KeyError ''href'')"
    using search_text_handlers [OF run2 _ example_outcome_bad_anchor] e
    by (simp add: run2 tiers_run_def)
  ultimately show ?thesis
    by (simp add: run run2 tiers_run_def example_outcome_primp_down
          example_outcome_bad_anchor)
qed

text \<open>
  Claim C2 as the specification words it fails at the primp tier: there a
  \<^verbatim>\<open>RuntimeError\<close>, which is no tier's own exception class, is raised inside the
  tier and does not reach the caller; the search goes on and returns the ddgs
  tier's list.
\<close>

theorem primp_swallows_counterexample:
  "tier_outcome example_config example_world_primp_down ''q'' 5 Map.empty Primp
     = Inl (Exc RuntimeError ''down'')
   \<and> \<not> is_WebDriverException (Exc RuntimeError ''down'')
   \<and> \<not> is_DDGSException (Exc RuntimeError ''down'')
   \<and> snd (snd (search_text example_config example_world_primp_down ''q'' 5 Map.empty))
       \<noteq> Inl (Exc RuntimeError ''down'')"
  by (simp add: example_outcome_primp_down example_run_primp_down
        is_WebDriverException_def is_DDGSException_def)

subsection \<open>What the tiers return\<close>

lemma length_py_slice_to:
  "0 \<le> k \<Longrightarrow> int (length (py_slice_to k xs)) \<le> k"
  by (simp add: py_slice_to_def)

lemma collect_Inr:
  "collect xs = Inr vs \<Longrightarrow> xs = map Inr vs"
  by (induction xs arbitrary: vs) (auto split: sum.splits)

lemma collect_length:
  "collect (map f xs) = Inr vs \<Longrightarrow> length vs = length xs"
  using collect_Inr [of "map f xs" vs] by (metis length_map)

lemma result_entry_fields:
  "result_entry i title href body ''id'' = Some (PyInt (int i))"
  "result_entry i title href body ''body'' = Some (PyStr body)"
  by (simp_all add: result_entry_def)

lemma ids_primp_entries:
  "ids (map (primp_entry w snips) (enumerate n xs))
     = map (\<lambda>i. Some (PyInt (int i))) [n ..< n + length xs]"
  by (induction xs arbitrary: n)
     (simp_all add: ids_def primp_entry_def Let_def result_entry_fields upt_conv_Cons
               del: upt_Suc)

lemma collect_Cons_Inr:
  "collect (x # xs) = Inr vs \<Longrightarrow> \<exists>v vs'. x = Inr v \<and> collect xs = Inr vs' \<and> vs = v # vs'"
  by (auto split: sum.splits)

lemma scrape_entries:
  "collect (map scrape_entry (enumerate n xs)) = Inr vs
     \<Longrightarrow> ids vs = map (\<lambda>i. Some (PyInt (int i))) [n ..< n + length xs]
       \<and> (\<forall>d\<in>set vs. d ''body'' = Some (PyStr []))"
proof (induction xs arbitrary: n vs)
  case Nil
  then show ?case by (simp add: ids_def)
next
  case (Cons x xs)
  from Cons.prems
  have "collect (scrape_entry (n, x) # map scrape_entry (enumerate (Suc n) xs)) = Inr vs"
    by simp
  from collect_Cons_Inr [OF this] obtain v vs' where
    e: "scrape_entry (n, x) = Inr v" and v: "vs = v # vs'"
    and r: "collect (map scrape_entry (enumerate (Suc n) xs)) = Inr vs'"
    by blast
  from e have f: "v ''id'' = Some (PyInt (int n))" "v ''body'' = Some (PyStr [])"
    by (auto simp: scrape_entry_def result_entry_fields split: option.splits)
  from Cons.IH [OF r] f show ?case
    unfolding v by (simp add: ids_def upt_conv_Cons del: upt_Suc)
qed

lemma browser_entries:
  "collect (map (browser_entry w snips) (enumerate n xs)) = Inr vs
     \<Longrightarrow> ids vs = map (\<lambda>i. Some (PyInt (int (i + 1)))) [n ..< n + length xs]"
proof (induction xs arbitrary: n vs)
  case Nil
  then show ?case by (simp add: ids_def)
next
  case (Cons x xs)
  from Cons.prems
  have "collect (browser_entry w snips (n, x)
                   # map (browser_entry w snips) (enumerate (Suc n) xs)) = Inr vs"
    by simp
  from collect_Cons_Inr [OF this] obtain v vs' where
    e: "browser_entry w snips (n, x) = Inr v" and v: "vs = v # vs'"
    and r: "collect (map (browser_entry w snips) (enumerate (Suc n) xs)) = Inr vs'"
    by blast
  from e have f: "v ''id'' = Some (PyInt (int (n + 1)))"
    by (auto simp: browser_entry_def Let_def result_entry_fields split: option.splits)
  from Cons.IH [OF r] f show ?case
    unfolding v by (simp add: ids_def upt_conv_Cons del: upt_Suc)
qed

lemma primp_tier_returns:
  assumes "snd (primp_tier cfg w q n env) = Inr (Some rs)"
  shows "\<exists>resp. primp_get w = Inr resp
           \<and> rs = map (primp_entry w (soup_select w ''div.result__snippet, a.result__snippet''
                                         (resp_text resp)))
                    (enumerate 1 (py_slice_to (primp_limit n)
                                    (soup_select w ''a.result__a'' (resp_text resp))))
           \<and> rs \<noteq> []"
  using assms
  by (auto simp: primp_tier_def primp_attempt_def primp_request_def Let_def py_finally_def
           split: option.splits sum.splits if_splits)

lemma browser_search_returns:
  assumes "snd (snd (browser_search w q n proxy headers headless bp env)) = Inr rs"
  shows "collect (map (browser_entry w (py_slice_to INTERNAL_MAX_RETURN
                                          (soup_select w ''a.result__snippet'' (page_source w))))
                    (enumerate 0 (py_slice_to INTERNAL_MAX_RETURN
                                    (soup_select w ''a.result__a'' (page_source w))))) = Inr rs"
  using assms
  by (auto simp: browser_search_def browser_page_def Let_def py_finally_def
           split: option.splits sum.splits if_splits)

lemma requests_scrape_returns:
  assumes "snd (requests_scrape w q n proxy headers) = Inr rs"
  shows "\<exists>resp. requests_post w = Inr resp \<and> raise_for_status w resp = None
           \<and> collect (map scrape_entry
                        (enumerate 1 (py_slice_to n
                                        (soup_select w ''a.result__a'' (resp_text resp))))) = Inr rs"
  using assms
  by (auto simp: requests_scrape_def Let_def split: option.splits sum.splits)

lemma primp_request_zero:
  "primp_request cfg w q 0 = primp_request cfg w q 10"
proof -
  have l: "primp_limit 0 = primp_limit 10"
    by (simp add: primp_limit_def INTERNAL_MAX_RETURN_def)
  show ?thesis
    unfolding primp_request_def l by (rule refl)
qed

lemma primp_zero:
  "primp_tier cfg w q 0 env = primp_tier cfg w q 10 env"
  unfolding primp_tier_def primp_attempt_def primp_request_zero by (rule refl)





lemma primp_tier_cap:
  assumes "0 < n" and "snd (primp_tier cfg w q n env) = Inr (Some rs)"
  shows "int (length rs) \<le> n"
proof -
  from primp_tier_returns [OF assms(2)] obtain links snips where
    "rs = map (primp_entry w snips) (enumerate 1 (py_slice_to (primp_limit n) links))"
    by blast
  then have "int (length rs) = int (length (py_slice_to n links))"
    using assms(1) by (simp add: primp_limit_def)
  also have "\<dots> \<le> n"
    using assms(1) by (intro length_py_slice_to) simp
  finally show ?thesis .
qed





text \<open>
  Claim C10. In the primp tier \<^verbatim>\<open>int(max_results or INTERNAL_MAX_RETURN)\<close> turns
  \<open>max_results = 0\<close> into 10: the tier does for 0 exactly what it does for 10.
  What it then returns is never empty and has at most 10 entries, and it has
  exactly 10 when the request succeeds on a page with 10 anchors or more.
\<close>

theorem primp_falsy_max_results:
  "primp_limit 0 = INTERNAL_MAX_RETURN \<and> INTERNAL_MAX_RETURN = 10
   \<and> primp_tier cfg w query 0 env = primp_tier cfg w query 10 env
   \<and> (\<forall>rs. snd (primp_tier cfg w query 0 env) = Inr (Some rs)
          \<longrightarrow> rs \<noteq> [] \<and> length rs \<le> 10)
   \<and> (\<forall>resp. primp_import w = None \<and> primp_Client w = None
          \<and> \<not> truthy_headers (self_headers cfg) \<and> primp_close w = None
          \<and> primp_get w = Inr resp \<and> 200 \<le> status_code resp \<and> status_code resp < 300
          \<and> resp_text resp \<noteq> []
          \<and> 10 \<le> length (soup_select w ''a.result__a'' (resp_text resp))
        \<longrightarrow> (\<exists>rs. snd (primp_tier cfg w query 0 env) = Inr (Some rs) \<and> length rs = 10))"
proof (intro conjI allI impI)
  show "primp_limit 0 = INTERNAL_MAX_RETURN" by (simp add: primp_limit_def)
  show "INTERNAL_MAX_RETURN = 10" by (simp add: INTERNAL_MAX_RETURN_def)
  show z: "primp_tier cfg w query 0 env = primp_tier cfg w query 10 env" by (rule primp_zero)
  {
    fix rs assume "snd (primp_tier cfg w query 0 env) = Inr (Some rs)"
    then have r: "snd (primp_tier cfg w query 10 env) = Inr (Some rs)" by (simp add: z)
    from primp_tier_returns [OF r] show "rs \<noteq> []" by blast
    from primp_tier_cap [OF _ r] show "length rs \<le> 10" by simp
  }
  {
    fix resp
    assume h: "primp_import w = None \<and> primp_Client w = None
          \<and> \<not> truthy_headers (self_headers cfg) \<and> primp_close w = None
          \<and> primp_get w = Inr resp \<and> 200 \<le> status_code resp \<and> status_code resp < 300
          \<and> resp_text resp \<noteq> []
          \<and> 10 \<le> length (soup_select w ''a.result__a'' (resp_text resp))"
    let ?out = "map (primp_entry w (soup_select w ''div.result__snippet, a.result__snippet''
                                      (resp_text resp)))
                  (enumerate 1 (py_slice_to (primp_limit 0)
                                  (soup_select w ''a.result__a'' (resp_text resp))))"
    from h have l: "length ?out = 10"
      by (simp add: primp_limit_def INTERNAL_MAX_RETURN_def py_slice_to_def)
    have ne: "?out \<noteq> []"
    proof
      assume "?out = []"
      then have "length ?out = 0" by (simp only: list.size)
      with l show False by (simp only: zero_neq_numeral)
    qed
    have "snd (primp_tier cfg w query 0 env) = Inr (Some ?out)"
      using h ne
      by (simp add: primp_tier_def primp_attempt_def primp_request_def Let_def py_finally_def
            suppress_Exception_def)
    with l show "\<exists>rs. snd (primp_tier cfg w query 0 env) = Inr (Some rs) \<and> length rs = 10"
      by blast
  }
qed


theorem primp_falsy_max_results_witness:
  "\<exists>rs. snd (primp_tier example_config example_world12 ''q'' 0 Map.empty) = Inr (Some rs)
        \<and> length rs = 10"
proof -
  have h: "primp_import example_world12 = None \<and> primp_Client example_world12 = None
          \<and> \<not> truthy_headers (self_headers example_config) \<and> primp_close example_world12 = None
          \<and> primp_get example_world12 = Inr \<lparr>status_code = 200, resp_text = ''p''\<rparr>
          \<and> 200 \<le> status_code \<lparr>status_code = 200, resp_text = ''p''\<rparr>
          \<and> status_code \<lparr>status_code = 200, resp_text = ''p''\<rparr> < 300
          \<and> resp_text \<lparr>status_code = 200, resp_text = ''p''\<rparr> \<noteq> []
          \<and> 10 \<le> length (soup_select example_world12 ''a.result__a''
                            (resp_text \<lparr>status_code = 200, resp_text = ''p''\<rparr>))"
    by (simp add: example_world12_def example_world_def example_config_def truthy_headers_def)
  note c = primp_falsy_max_results [of example_config example_world12 "''q''" Map.empty]
  from c have "\<forall>resp. primp_import example_world12 = None \<and> primp_Client example_world12 = None
          \<and> \<not> truthy_headers (self_headers example_config) \<and> primp_close example_world12 = None
          \<and> primp_get example_world12 = Inr resp \<and> 200 \<le> status_code resp
          \<and> status_code resp < 300 \<and> resp_text resp \<noteq> []
          \<and> 10 \<le> length (soup_select example_world12 ''a.result__a'' (resp_text resp))
        \<longrightarrow> (\<exists>rs. snd (primp_tier example_config example_world12 ''q'' 0 Map.empty)
                    = Inr (Some rs) \<and> length rs = 10)"
    by (elim conjE)
  from this [rule_format, OF h] show ?thesis .
qed


subsection \<open>The last tier\<close>





subsection \<open>The ids of the entries\<close>

text \<open>The three tiers that build their entries themselves number them
  1, 2, ..., in order.\<close>

lemma scraping_tiers_ids:
  "(\<forall>rs. snd (primp_tier cfg w query n env) = Inr (Some rs)
       \<longrightarrow> ids rs = map (\<lambda>i. Some (PyInt (int i))) [1 ..< Suc (length rs)])
   \<and> (\<forall>rs. snd (snd (browser_search w query n proxy headers headless bypass env)) = Inr rs
       \<longrightarrow> ids rs = map (\<lambda>i. Some (PyInt (int i))) [1 ..< Suc (length rs)])
   \<and> (\<forall>rs. snd (requests_scrape w query n proxy headers) = Inr rs
       \<longrightarrow> ids rs = map (\<lambda>i. Some (PyInt (int i))) [1 ..< Suc (length rs)])"
proof (intro conjI allI impI)
  fix rs assume "snd (primp_tier cfg w query n env) = Inr (Some rs)"
  from primp_tier_returns [OF this] obtain snips links where
    rs: "rs = map (primp_entry w snips) (enumerate 1 links)" by blast
  show "ids rs = map (\<lambda>i. Some (PyInt (int i))) [1 ..< Suc (length rs)]"
    unfolding rs ids_primp_entries by simp
next
  fix rs assume "snd (snd (browser_search w query n proxy headers headless bypass env)) = Inr rs"
  from browser_search_returns [OF this] obtain snips links where
    c: "collect (map (browser_entry w snips) (enumerate 0 links)) = Inr rs" by blast
  from browser_entries [OF c] collect_length [OF c]
  have "ids rs = map (\<lambda>i. Some (PyInt (int (i + 1)))) [0 ..< length rs]" by simp
  also have "\<dots> = map (\<lambda>i. Some (PyInt (int i))) (map Suc [0 ..< length rs])"
    by simp
  also have "map Suc [0 ..< length rs] = [1 ..< Suc (length rs)]"
    by (simp only: map_Suc_upt One_nat_def)
  finally show "ids rs = map (\<lambda>i. Some (PyInt (int i))) [1 ..< Suc (length rs)]" .
next
  fix rs assume "snd (requests_scrape w query n proxy headers) = Inr rs"
  from requests_scrape_returns [OF this] obtain links where
    c: "collect (map scrape_entry (enumerate 1 links)) = Inr rs" by auto
  from scrape_entries [OF c] collect_length [OF c]
  show "ids rs = map (\<lambda>i. Some (PyInt (int i))) [1 ..< Suc (length rs)]" by simp
qed


end
